theory Spec2Isabelle
  imports Main "HOL-Library.Sublist"
begin

section \<open>The recursive reasoning loop of \<open>src/app.py\<close>\<close>

text \<open>
  The development embeds the class \<open>StreamlitRLM_REPL\<close> of \<open>src/app.py\<close>: its
  constructor, \<open>setup_context\<close>, \<open>completion\<close> and
  \<open>_process_code_with_logging\<close>. The modules the class imports (\<open>rlm.repl\<close>,
  \<open>rlm.utils.llm\<close>, \<open>rlm.utils.prompts\<close>, \<open>rlm.utils.utils\<close>) are not part of the
  source file; every function taken from them is a field of the record
  \<open>collaborators\<close>, so each theorem holds for whatever these functions compute.
\<close>

subsection \<open>Text, messages, exceptions\<close>

text \<open>
  A Python \<open>str\<close> is a sequence of code points and \<open>len\<close> counts code points, so a
  text is a list of natural numbers; \<open>ascii\<close> embeds the literals of the source.
\<close>

type_synonym str = "nat list"

definition ascii :: "string \<Rightarrow> str" where
  "ascii s = map of_char s"

text \<open>A message is the dictionary \<open>{"role": ..., "content": ...}\<close>.\<close>

record message =
  role :: str
  content :: str

text \<open>
  The exceptions a run can end with. \<open>UnboundLocalError\<close> (a subclass of Python's
  \<open>NameError\<close>) carries the name of the unbound local variable, \<open>AttributeError\<close> the
  attribute looked up on \<open>None\<close>; \<open>CollaboratorError\<close> is whatever an imported function
  raised.
\<close>

datatype exn =
  UnboundLocalError string
| AttributeError string
| CollaboratorError str

fun is_NameError :: "exn \<Rightarrow> bool" where
  "is_NameError (UnboundLocalError v) = True"
| "is_NameError (AttributeError a) = False"
| "is_NameError (CollaboratorError m) = False"

text \<open>
  A call returns a value, raises, or never returns (a code fragment that loops forever
  blocks the run: the source has no timeout around \<open>code_execution\<close>).
\<close>

datatype 'a outcome = Returns 'a | Raises exn | Diverges

subsection \<open>Collaborators\<close>

text \<open>The result object of \<open>REPLEnv.code_execution\<close>, with the three fields the class reads.\<close>

record 't repl_result =
  stdout :: str
  stderr :: str
  execution_time :: 't

text \<open>
  The imported functions. The transport \<open>llm.completion\<close> is stateful: its answer may
  depend on every request made before, so it takes the list of the earlier requests and
  the present one. \<open>next_action_prompt\<close> takes its third argument as an option: \<open>None\<close>
  is the call \<open>next_action_prompt(query, iteration)\<close> that leaves the argument to its
  default, \<open>Some True\<close> the call with \<open>final_answer=True\<close>. \<open>code_execution\<close> returns
  the result and the REPL environment after the fragment, or \<open>None\<close> when the fragment never
  returns. \<open>check_for_final_answer\<close> receives \<open>self.repl_env\<close>, which is \<open>None\<close> before
  set-up.

  What the record fixes about them: the transport and the packager may raise, a
  fragment may never return; the other functions return, and none but
  \<open>code_execution\<close> changes the REPL environment. A fault inside a fragment is not an exception
  of \<open>code_execution\<close>: the REPL environment reports it in \<open>stderr\<close>.
\<close>

record ('ctx, 'cd, 'cs, 'env, 't) collaborators =
  DEFAULT_QUERY :: str
  build_system_prompt :: "message list"
  next_action_prompt :: "str option \<Rightarrow> int \<Rightarrow> bool option \<Rightarrow> message"
  convert_context_for_repl :: "'ctx \<Rightarrow> exn + ('cd \<times> 'cs)"
  REPLEnv :: "'cd \<Rightarrow> 'cs \<Rightarrow> str \<Rightarrow> 'env"
  llm_completion :: "message list list \<Rightarrow> message list \<Rightarrow> exn + str"
  find_code_blocks :: "str \<Rightarrow> str list option"
  code_execution :: "'env \<Rightarrow> str \<Rightarrow> ('t repl_result \<times> 'env) option"
  check_for_final_answer :: "str \<Rightarrow> 'env option \<Rightarrow> str option"

text \<open>
  The calls the class makes on its \<open>StreamlitLogger\<close>, in order. The logger only renders
  them; nothing it computes flows back into the run.
\<close>

datatype 't log_call =
  Log_query_start str
| Log_initial_messages "message list"
| Log_model_response str bool
| Log_code_execution str str str 't
| Log_final_response str

subsection \<open>The object state\<close>

text \<open>
  The attributes of a \<open>StreamlitRLM_REPL\<close> that \<open>completion\<close> reads or writes, with the
  state of the two objects it holds: \<open>requests\<close> is the list of requests the transport
  \<open>self.llm\<close> has received, \<open>logged\<close> the calls \<open>self.st_logger\<close> has received.
  (\<open>api_key\<close>, \<open>model\<close> and \<open>depth\<close> are set by the constructor and never read again.)
\<close>

record ('env, 't) rlm =
  recursive_model :: str
  max_iterations :: int
  messages :: "message list"
  query :: "str option"
  repl_env :: "'env option"
  requests :: "message list list"
  logged :: "'t log_call list"

definition init :: "str \<Rightarrow> int \<Rightarrow> ('env, 't) rlm" where
  "init recursive_model' max_iterations' =
     \<lparr>recursive_model = recursive_model', max_iterations = max_iterations',
      messages = [], query = None, repl_env = None, requests = [], logged = []\<rparr>"

subsection \<open>\<open>setup_context\<close>\<close>

definition setup_context ::
  "('ctx, 'cd, 'cs, 'env, 't) collaborators \<Rightarrow> ('env, 't) rlm \<Rightarrow> 'ctx \<Rightarrow> str option
    \<Rightarrow> message list outcome \<times> ('env, 't) rlm" where
  "setup_context C self context query' =
     (let q = (case query' of None \<Rightarrow> DEFAULT_QUERY C | Some q' \<Rightarrow> q');
          self1 = self\<lparr>query := Some q, logged := logged self @ [Log_query_start q]\<rparr>;
          self2 = self1\<lparr>messages := build_system_prompt C\<rparr>;
          self3 = self2\<lparr>logged := logged self2 @ [Log_initial_messages (messages self2)]\<rparr>
      in case convert_context_for_repl C context of
           Inl e \<Rightarrow> (Raises e, self3)
         | Inr (context_data, context_str) \<Rightarrow>
             (let self4 = self3\<lparr>repl_env :=
                    Some (REPLEnv C context_data context_str (recursive_model self3))\<rparr>
              in (Returns (messages self4), self4)))"

subsection \<open>\<open>_process_code_with_logging\<close>\<close>

text \<open>
  Lines 224 to 230: the message built from one execution result. The slices
  \<open>[:2000]\<close> and \<open>[:500]\<close> are taken only when the text is longer than the cap.
\<close>

definition tool_response :: "'t repl_result \<Rightarrow> message" where
  "tool_response result =
     (let truncated_stdout =
            (if length (stdout result) > 2000 then take 2000 (stdout result) else stdout result);
          truncated_stderr =
            (if length (stderr result) > 500 then take 500 (stderr result) else stderr result)
      in \<lparr>role = ascii ''user'',
          content = ascii ''REPL environment returned:\<newline>stdout: '' @ truncated_stdout
                    @ ascii ''\<newline>stderr: '' @ truncated_stderr\<rparr>)"

text \<open>
  The \<open>for code_block in code_blocks\<close> loop. The parameter \<open>messages\<close> of the method is
  the very list object \<open>self.messages\<close> (the caller passes it and \<open>append\<close> mutates it in
  place), so the loop works on the field.
\<close>

fun exec_code_blocks ::
  "('ctx, 'cd, 'cs, 'env, 't) collaborators \<Rightarrow> str list \<Rightarrow> ('env, 't) rlm
    \<Rightarrow> unit outcome \<times> ('env, 't) rlm" where
  "exec_code_blocks C [] self = (Returns (), self)"
| "exec_code_blocks C (code_block # rest) self =
     (case repl_env self of
        None \<Rightarrow> (Raises (AttributeError ''code_execution''), self)
      | Some env \<Rightarrow>
          (case code_execution C env code_block of
             None \<Rightarrow> (Diverges, self)
           | Some (result, env') \<Rightarrow>
               exec_code_blocks C rest
                 (self\<lparr>repl_env := Some env',
                       logged := logged self @
                         [Log_code_execution code_block (stdout result) (stderr result)
                            (execution_time result)],
                       messages := messages self @ [tool_response result]\<rparr>)))"

definition process_code_with_logging ::
  "('ctx, 'cd, 'cs, 'env, 't) collaborators \<Rightarrow> str \<Rightarrow> str list \<Rightarrow> ('env, 't) rlm
    \<Rightarrow> message list outcome \<times> ('env, 't) rlm" where
  "process_code_with_logging C response code_blocks self =
     (let assistant_message = \<lparr>role = ascii ''assistant'', content = response\<rparr>;
          self1 = self\<lparr>messages := messages self @ [assistant_message]\<rparr>
      in case exec_code_blocks C code_blocks self1 of
           (Returns u, self2) \<Rightarrow> (Returns (messages self2), self2)
         | (Raises e, self2) \<Rightarrow> (Raises e, self2)
         | (Diverges, self2) \<Rightarrow> (Diverges, self2))"

subsection \<open>\<open>completion\<close>\<close>

text \<open>
  Python's truth test \<open>if final_answer:\<close> on an optional text: \<open>None\<close> and the empty
  text are false.
\<close>

fun truthy :: "str option \<Rightarrow> bool" where
  "truthy None = False"
| "truthy (Some s) = (s \<noteq> [])"

text \<open>\<open>range(n)\<close>: empty when \<open>n \<le> 0\<close>.\<close>

definition py_range :: "int \<Rightarrow> int list" where
  "py_range n = map int [0..<nat n]"

text \<open>
  Lines 185 to 194: the response is scanned for code blocks, logged, and folded into the
  conversation.
\<close>

definition process_response ::
  "('ctx, 'cd, 'cs, 'env, 't) collaborators \<Rightarrow> str \<Rightarrow> ('env, 't) rlm
    \<Rightarrow> unit outcome \<times> ('env, 't) rlm" where
  "process_response C response self =
     (let code_blocks = find_code_blocks C response;
          self1 = self\<lparr>logged := logged self @
                    [Log_model_response response (code_blocks \<noteq> None)]\<rparr>
      in case code_blocks of
           Some blocks \<Rightarrow>
             (case process_code_with_logging C response blocks self1 of
                (Returns msgs, self2) \<Rightarrow> (Returns (), self2\<lparr>messages := msgs\<rparr>)
              | (Raises e, self2) \<Rightarrow> (Raises e, self2)
              | (Diverges, self2) \<Rightarrow> (Diverges, self2))
         | None \<Rightarrow>
             (let assistant_message =
                    \<lparr>role = ascii ''assistant'',
                     content = ascii ''You responded with:\<newline>'' @ response\<rparr>
              in (Returns (), self1\<lparr>messages := messages self1 @ [assistant_message]\<rparr>)))"

text \<open>
  The call \<open>self.llm.completion(request)\<close>: the transport records the request and
  answers from the requests it has seen.
\<close>

definition llm_call ::
  "('ctx, 'cd, 'cs, 'env, 't) collaborators \<Rightarrow> message list \<Rightarrow> ('env, 't) rlm
    \<Rightarrow> str outcome \<times> ('env, 't) rlm" where
  "llm_call C request self =
     (let self1 = self\<lparr>requests := requests self @ [request]\<rparr>
      in case llm_completion C (requests self) request of
           Inl e \<Rightarrow> (Raises e, self1)
         | Inr response \<Rightarrow> (Returns response, self1))"

text \<open>
  The \<open>for iteration in range(self._max_iterations)\<close> loop, over the values still to
  come. The fourth argument and the second component of the result are the binding of
  the local variable \<open>iteration\<close> (\<open>None\<close>: not bound yet). The loop returns
  \<open>Returns (Some answer)\<close> when the body executed \<open>return final_answer\<close> and
  \<open>Returns None\<close> when the range is exhausted.
\<close>

fun completion_loop ::
  "('ctx, 'cd, 'cs, 'env, 't) collaborators \<Rightarrow> str option \<Rightarrow> int list \<Rightarrow> int option
    \<Rightarrow> ('env, 't) rlm \<Rightarrow> str option outcome \<times> int option \<times> ('env, 't) rlm" where
  "completion_loop C query' [] iteration self = (Returns None, iteration, self)"
| "completion_loop C query' (i # rest) iteration self =
     (case llm_call C (messages self @ [next_action_prompt C query' i None]) self of
        (Raises e, self1) \<Rightarrow> (Raises e, Some i, self1)
      | (Diverges, self1) \<Rightarrow> (Diverges, Some i, self1)
      | (Returns response, self1) \<Rightarrow>
          (case process_response C response self1 of
             (Raises e, self2) \<Rightarrow> (Raises e, Some i, self2)
           | (Diverges, self2) \<Rightarrow> (Diverges, Some i, self2)
           | (Returns u, self2) \<Rightarrow>
               (case check_for_final_answer C response (repl_env self2) of
                  None \<Rightarrow> completion_loop C query' rest (Some i) self2
                | Some final_answer \<Rightarrow>
                    if final_answer \<noteq> []
                    then (Returns (Some final_answer), Some i,
                          self2\<lparr>logged := logged self2 @ [Log_final_response final_answer]\<rparr>)
                    else completion_loop C query' rest (Some i) self2)))"

text \<open>
  Lines 202 to 205, after the loop: the forced instruction is built from the local
  variable \<open>iteration\<close>, which is unbound when the loop body never ran (the name is
  evaluated before \<open>next_action_prompt\<close> is called and before \<open>append\<close> runs).
\<close>

definition force_final ::
  "('ctx, 'cd, 'cs, 'env, 't) collaborators \<Rightarrow> str option \<Rightarrow> int option \<Rightarrow> ('env, 't) rlm
    \<Rightarrow> str outcome \<times> ('env, 't) rlm" where
  "force_final C query' iteration self =
     (case iteration of
        None \<Rightarrow> (Raises (UnboundLocalError ''iteration''), self)
      | Some i \<Rightarrow>
          (let self1 = self\<lparr>messages := messages self @
                         [next_action_prompt C query' i (Some True)]\<rparr>
           in case llm_call C (messages self1) self1 of
                (Raises e, self2) \<Rightarrow> (Raises e, self2)
              | (Diverges, self2) \<Rightarrow> (Diverges, self2)
              | (Returns final_answer, self2) \<Rightarrow>
                  (Returns final_answer,
                   self2\<lparr>logged := logged self2 @ [Log_final_response final_answer]\<rparr>)))"

definition completion ::
  "('ctx, 'cd, 'cs, 'env, 't) collaborators \<Rightarrow> ('env, 't) rlm \<Rightarrow> 'ctx \<Rightarrow> str option
    \<Rightarrow> str outcome \<times> ('env, 't) rlm" where
  "completion C self context query' =
     (case setup_context C self context query' of
        (Raises e, self1) \<Rightarrow> (Raises e, self1)
      | (Diverges, self1) \<Rightarrow> (Diverges, self1)
      | (Returns msgs, self1) \<Rightarrow>
          (case completion_loop C query' (py_range (max_iterations self1)) None
                  (self1\<lparr>messages := msgs\<rparr>) of
             (Raises e, iteration, self2) \<Rightarrow> (Raises e, self2)
           | (Diverges, iteration, self2) \<Rightarrow> (Diverges, self2)
           | (Returns (Some final_answer), iteration, self2) \<Rightarrow> (Returns final_answer, self2)
           | (Returns None, iteration, self2) \<Rightarrow> force_final C query' iteration self2))"

subsection \<open>The fragments of one response, as the REPL environment runs them\<close>

text \<open>
  What executing the fragments of one response in source order amounts to: each fragment
  runs in the REPL environment the one before it left, and the results are collected in that
  order. \<open>None\<close> when some fragment never returns.
\<close>

fun run_fragments ::
  "('ctx, 'cd, 'cs, 'env, 't) collaborators \<Rightarrow> 'env \<Rightarrow> str list
    \<Rightarrow> ('t repl_result list \<times> 'env) option" where
  "run_fragments C env [] = Some ([], env)"
| "run_fragments C env (code_block # rest) =
     (case code_execution C env code_block of
        None \<Rightarrow> None
      | Some (result, env') \<Rightarrow>
          (case run_fragments C env' rest of
             None \<Rightarrow> None
           | Some (results, env'') \<Rightarrow> Some (result # results, env'')))"

subsection \<open>Concrete collaborators\<close>

text \<open>
  A small instance of the collaborators, on which the theorems below are evaluated. Texts
  are short lists of code points. The transport answers its \<open>n\<close>-th request (counting
  from 0) with the text \<open>[n]\<close>; the responses \<open>[0]\<close> and \<open>[1]\<close> carry code fragments
  (two and one); the REPL environment is the number of fragments executed so far and a fragment
  prints its own text followed by that number; the final answer \<open>[42]\<close> is found in
  the response \<open>[1]\<close> once three fragments have run. An empty context is the shape the
  packager does not recognise.
\<close>

definition demo :: "(str, unit, str, nat, nat) collaborators" where
  "demo =
     \<lparr>DEFAULT_QUERY = [100],
      build_system_prompt = [\<lparr>role = [0], content = [1]\<rparr>],
      next_action_prompt = (\<lambda>q i fa.
         \<lparr>role = [2],
          content = (case q of None \<Rightarrow> [0] | Some t \<Rightarrow> 1 # t)
                    @ [nat i, (case fa of Some True \<Rightarrow> 1 | _ \<Rightarrow> 0)]\<rparr>),
      convert_context_for_repl = (\<lambda>ctx.
         if ctx = [] then Inl (CollaboratorError [3]) else Inr ((), ctx)),
      REPLEnv = (\<lambda>cd cs rm. 0),
      llm_completion = (\<lambda>h req. Inr [length h]),
      find_code_blocks = (\<lambda>r.
         if r = [0] then Some [[10], [11]] else if r = [1] then Some [[12]] else None),
      code_execution = (\<lambda>env b.
         Some (\<lparr>stdout = b @ [env], stderr = [], execution_time = 0\<rparr>, Suc env)),
      check_for_final_answer = (\<lambda>r env.
         if r = [1] \<and> env = Some 3 then Some [42] else None)\<rparr>"

text \<open>The same, with a REPL environment whose output exceeds both caps.\<close>

definition demo_long :: "(str, unit, str, nat, nat) collaborators" where
  "demo_long = demo\<lparr>code_execution := (\<lambda>env b.
       Some (\<lparr>stdout = replicate 2001 7, stderr = replicate 501 8, execution_time = 0\<rparr>,
             Suc env))\<rparr>"

text \<open>A REPL environment whose fragments never return, and a transport that fails.\<close>

definition demo_blocked :: "(str, unit, str, nat, nat) collaborators" where
  "demo_blocked = demo\<lparr>code_execution := (\<lambda>env b. None)\<rparr>"

definition demo_offline :: "(str, unit, str, nat, nat) collaborators" where
  "demo_offline = demo\<lparr>llm_completion := (\<lambda>h r. Inl (CollaboratorError [9]))\<rparr>"

section \<open>Properties\<close>

subsection \<open>Executing the fragments of a response\<close>

lemma tool_response_take:
  "tool_response result =
     \<lparr>role = ascii ''user'',
      content = ascii ''REPL environment returned:\<newline>stdout: '' @ take 2000 (stdout result)
                @ ascii ''\<newline>stderr: '' @ take 500 (stderr result)\<rparr>"
  by (simp add: tool_response_def Let_def)

lemma run_fragments_length:
  "run_fragments C env bs = Some (rs, env') \<Longrightarrow> length rs = length bs"
  by (induction bs arbitrary: env rs) (auto split: option.splits prod.splits)

lemma exec_code_blocks_returns:
  "repl_env self = Some env \<Longrightarrow> run_fragments C env bs = Some (rs, env') \<Longrightarrow>
   exec_code_blocks C bs self =
     (Returns (),
      self\<lparr>repl_env := Some env',
           logged := logged self @
             map (\<lambda>(b, r). Log_code_execution b (stdout r) (stderr r) (execution_time r)) (zip bs rs),
           messages := messages self @ map tool_response rs\<rparr>)"
proof (induction bs arbitrary: self env rs)
  case Nil
  then show ?case by simp
next
  case (Cons b bs)
  then show ?case
    by (auto split: option.splits prod.splits)
qed

lemma exec_code_blocks_diverges:
  "repl_env self = Some env \<Longrightarrow> run_fragments C env bs = None \<Longrightarrow>
   fst (exec_code_blocks C bs self) = Diverges"
  by (induction bs arbitrary: self env) (auto split: option.splits prod.splits)

lemma exec_requests [simp]: "requests (snd (exec_code_blocks C bs self)) = requests self"
  by (induction bs arbitrary: self) (simp_all split: option.splits prod.splits)

lemma exec_query [simp]: "query (snd (exec_code_blocks C bs self)) = query self"
  by (induction bs arbitrary: self) (simp_all split: option.splits prod.splits)

lemma exec_max_iterations [simp]:
  "max_iterations (snd (exec_code_blocks C bs self)) = max_iterations self"
  by (induction bs arbitrary: self) (simp_all split: option.splits prod.splits)

lemma exec_messages_prefix: "prefix (messages self) (messages (snd (exec_code_blocks C bs self)))"
proof (induction bs arbitrary: self)
  case Nil
  show ?case by simp
next
  case (Cons b bs)
  show ?case
  proof (cases "repl_env self")
    case None
    then show ?thesis by simp
  next
    case (Some env)
    show ?thesis
    proof (cases "code_execution C env b")
      case None
      with Some show ?thesis by simp
    next
      case (Some p)
      obtain r env' where p: "p = (r, env')" by (cases p)
      let ?s = "self\<lparr>repl_env := Some env',
                       logged := logged self @
                         [Log_code_execution b (stdout r) (stderr r) (execution_time r)],
                       messages := messages self @ [tool_response r]\<rparr>"
      have "prefix (messages ?s) (messages (snd (exec_code_blocks C bs ?s)))"
        by (rule Cons.IH)
      then have "prefix (messages self) (messages (snd (exec_code_blocks C bs ?s)))"
        by (simp add: append_prefixD)
      with \<open>repl_env self = Some env\<close> Some p show ?thesis by simp
    qed
  qed
qed

lemma exec_logged_prefix: "prefix (logged self) (logged (snd (exec_code_blocks C bs self)))"
proof (induction bs arbitrary: self)
  case Nil
  show ?case by simp
next
  case (Cons b bs)
  show ?case
  proof (cases "repl_env self")
    case None
    then show ?thesis by simp
  next
    case (Some env)
    show ?thesis
    proof (cases "code_execution C env b")
      case None
      with Some show ?thesis by simp
    next
      case (Some p)
      obtain r env' where p: "p = (r, env')" by (cases p)
      let ?s = "self\<lparr>repl_env := Some env',
                       logged := logged self @
                         [Log_code_execution b (stdout r) (stderr r) (execution_time r)],
                       messages := messages self @ [tool_response r]\<rparr>"
      have "prefix (logged ?s) (logged (snd (exec_code_blocks C bs ?s)))"
        by (rule Cons.IH)
      then have "prefix (logged self) (logged (snd (exec_code_blocks C bs ?s)))"
        by (simp add: append_prefixD)
      with \<open>repl_env self = Some env\<close> Some p show ?thesis by simp
    qed
  qed
qed

lemma exec_repl_env:
  "repl_env self \<noteq> None \<Longrightarrow> repl_env (snd (exec_code_blocks C bs self)) \<noteq> None"
  by (induction bs arbitrary: self) (auto split: option.splits prod.splits)


lemma process_response_Some:
  "find_code_blocks C response = Some bs \<Longrightarrow>
   process_response C response self =
     exec_code_blocks C bs
       (self\<lparr>logged := logged self @ [Log_model_response response True],
             messages := messages self @ [\<lparr>role = ascii ''assistant'', content = response\<rparr>]\<rparr>)"
proof -
  assume f: "find_code_blocks C response = Some bs"
  let ?s = "self\<lparr>logged := logged self @ [Log_model_response response True],
             messages := messages self @ [\<lparr>role = ascii ''assistant'', content = response\<rparr>]\<rparr>"
  obtain out s where e: "exec_code_blocks C bs ?s = (out, s)"
    by (cases "exec_code_blocks C bs ?s")
  show ?thesis
  proof (cases out)
    case (Returns u)
    with e f show ?thesis
      by (simp add: process_response_def process_code_with_logging_def Let_def)
  next
    case (Raises x)
    with e f show ?thesis
      by (simp add: process_response_def process_code_with_logging_def Let_def)
  next
    case Diverges
    with e f show ?thesis
      by (simp add: process_response_def process_code_with_logging_def Let_def)
  qed
qed

lemma process_response_None:
  "find_code_blocks C response = None \<Longrightarrow>
   process_response C response self =
     (Returns (),
      self\<lparr>logged := logged self @ [Log_model_response response False],
           messages := messages self @
             [\<lparr>role = ascii ''assistant'',
               content = ascii ''You responded with:\<newline>'' @ response\<rparr>]\<rparr>)"
  by (simp add: process_response_def Let_def)

subsection \<open>Folding a response into the conversation\<close>

lemma process_response_requests [simp]:
  "requests (snd (process_response C response self)) = requests self"
  by (cases "find_code_blocks C response") (simp_all add: process_response_Some process_response_None)

lemma process_response_query [simp]:
  "query (snd (process_response C response self)) = query self"
  by (cases "find_code_blocks C response") (simp_all add: process_response_Some process_response_None)

lemma process_response_max_iterations [simp]:
  "max_iterations (snd (process_response C response self)) = max_iterations self"
  by (cases "find_code_blocks C response") (simp_all add: process_response_Some process_response_None)

lemma process_response_messages_prefix:
  "prefix (messages self) (messages (snd (process_response C response self)))"
proof (cases "find_code_blocks C response")
  case None
  then show ?thesis by (simp add: process_response_None)
next
  case (Some bs)
  let ?s = "self\<lparr>logged := logged self @ [Log_model_response response True],
             messages := messages self @ [\<lparr>role = ascii ''assistant'', content = response\<rparr>]\<rparr>"
  have "prefix (messages ?s) (messages (snd (exec_code_blocks C bs ?s)))"
    by (rule exec_messages_prefix)
  then have "prefix (messages self) (messages (snd (exec_code_blocks C bs ?s)))"
    by (simp add: append_prefixD)
  with Some show ?thesis by (simp add: process_response_Some)
qed

lemma process_response_logged_prefix:
  "prefix (logged self) (logged (snd (process_response C response self)))"
proof (cases "find_code_blocks C response")
  case None
  then show ?thesis by (simp add: process_response_None)
next
  case (Some bs)
  let ?s = "self\<lparr>logged := logged self @ [Log_model_response response True],
             messages := messages self @ [\<lparr>role = ascii ''assistant'', content = response\<rparr>]\<rparr>"
  have "prefix (logged ?s) (logged (snd (exec_code_blocks C bs ?s)))"
    by (rule exec_logged_prefix)
  then have "prefix (logged self) (logged (snd (exec_code_blocks C bs ?s)))"
    by (simp add: append_prefixD)
  with Some show ?thesis by (simp add: process_response_Some)
qed

lemma process_response_repl_env:
  "repl_env self \<noteq> None \<Longrightarrow> repl_env (snd (process_response C response self)) \<noteq> None"
  by (cases "find_code_blocks C response")
     (simp_all add: process_response_Some process_response_None exec_repl_env)


subsection \<open>The loop\<close>

text \<open>One iteration of the loop, by cases.\<close>

lemma completion_loop_cases [consumes 0, case_names Fault Raise Diverge Final Continue]:
  fixes C :: "('ctx, 'cd, 'cs, 'env, 't) collaborators" and self :: "('env, 't) rlm"
    and q :: "str option" and i :: int
  defines "request \<equiv> messages self @ [next_action_prompt C q i None]"
  defines "self1 \<equiv> self\<lparr>requests := requests self @ [messages self @ [next_action_prompt C q i None]]\<rparr>"
  obtains
    (Fault) e where "llm_completion C (requests self) request = Inl e"
      "completion_loop C q (i # rest) it self = (Raises e, Some i, self1)"
  | (Raise) response e where "llm_completion C (requests self) request = Inr response"
      "fst (process_response C response self1) = Raises e"
      "completion_loop C q (i # rest) it self =
         (Raises e, Some i, snd (process_response C response self1))"
  | (Diverge) response where "llm_completion C (requests self) request = Inr response"
      "fst (process_response C response self1) = Diverges"
      "completion_loop C q (i # rest) it self =
         (Diverges, Some i, snd (process_response C response self1))"
  | (Final) response answer where "llm_completion C (requests self) request = Inr response"
      "fst (process_response C response self1) = Returns ()"
      "check_for_final_answer C response (repl_env (snd (process_response C response self1)))
         = Some answer" "answer \<noteq> []"
      "completion_loop C q (i # rest) it self =
         (Returns (Some answer), Some i,
          (snd (process_response C response self1))
            \<lparr>logged := logged (snd (process_response C response self1)) @
               [Log_final_response answer]\<rparr>)"
  | (Continue) response where "llm_completion C (requests self) request = Inr response"
      "fst (process_response C response self1) = Returns ()"
      "\<not> truthy (check_for_final_answer C response
            (repl_env (snd (process_response C response self1))))"
      "completion_loop C q (i # rest) it self =
         completion_loop C q rest (Some i) (snd (process_response C response self1))"
proof (cases "llm_completion C (requests self) request")
  case (Inl e)
  then have "completion_loop C q (i # rest) it self = (Raises e, Some i, self1)"
    by (simp add: llm_call_def request_def self1_def)
  with Inl show ?thesis by (rule Fault)
next
  case (Inr response)
  obtain out s2 where p: "process_response C response self1 = (out, s2)"
    by (cases "process_response C response self1")
  have unfold: "completion_loop C q (i # rest) it self =
     (case process_response C response self1 of
             (Raises e, self2) \<Rightarrow> (Raises e, Some i, self2)
           | (Diverges, self2) \<Rightarrow> (Diverges, Some i, self2)
           | (Returns u, self2) \<Rightarrow>
               (case check_for_final_answer C response (repl_env self2) of
                  None \<Rightarrow> completion_loop C q rest (Some i) self2
                | Some final_answer \<Rightarrow>
                    if final_answer \<noteq> []
                    then (Returns (Some final_answer), Some i,
                          self2\<lparr>logged := logged self2 @ [Log_final_response final_answer]\<rparr>)
                    else completion_loop C q rest (Some i) self2))"
    using Inr by (simp add: llm_call_def request_def self1_def)
  show ?thesis
  proof (cases out)
    case (Raises e)
    with p unfold have "completion_loop C q (i # rest) it self =
         (Raises e, Some i, snd (process_response C response self1))" by simp
    moreover from p Raises have "fst (process_response C response self1) = Raises e" by simp
    ultimately show ?thesis using Inr by (metis Raise)
  next
    case Diverges
    with p unfold have "completion_loop C q (i # rest) it self =
         (Diverges, Some i, snd (process_response C response self1))" by simp
    moreover from p Diverges have "fst (process_response C response self1) = Diverges" by simp
    ultimately show ?thesis using Inr by (metis Diverge)
  next
    case (Returns u)
    with p have f: "fst (process_response C response self1) = Returns ()" by simp
    from p have s2: "snd (process_response C response self1) = s2" by simp
    show ?thesis
    proof (cases "truthy (check_for_final_answer C response (repl_env s2))")
      case True
      then obtain answer where a: "check_for_final_answer C response (repl_env s2) = Some answer"
        and ne: "answer \<noteq> []"
        by (cases "check_for_final_answer C response (repl_env s2)") auto
      from a p Returns unfold ne have eq: "completion_loop C q (i # rest) it self =
         (Returns (Some answer), Some i,
          (snd (process_response C response self1))
            \<lparr>logged := logged (snd (process_response C response self1)) @
               [Log_final_response answer]\<rparr>)" by simp
      from a s2 have a': "check_for_final_answer C response
          (repl_env (snd (process_response C response self1))) = Some answer" by simp
      show ?thesis by (rule Final[OF Inr f a' ne eq])
    next
      case False
      with p Returns unfold have eq: "completion_loop C q (i # rest) it self =
         completion_loop C q rest (Some i) (snd (process_response C response self1))"
        by (cases "check_for_final_answer C response (repl_env s2)") auto
      from False s2 have nt: "\<not> truthy (check_for_final_answer C response
            (repl_env (snd (process_response C response self1))))" by simp
      show ?thesis by (rule Continue[OF Inr f nt eq])
    qed
  qed
qed

lemma completion_loop_query:
  "query (snd (snd (completion_loop C q its it self))) = query self"
proof (induction its arbitrary: it self)
  case Nil
  show ?case by simp
next
  case (Cons i rest)
  show ?case
    by (cases rule: completion_loop_cases[where C=C and self=self and q=q and i=i
          and rest=rest and it=it]) (simp_all add: Cons.IH)
qed

lemma completion_loop_repl_env:
  "repl_env self \<noteq> None \<Longrightarrow> repl_env (snd (snd (completion_loop C q its it self))) \<noteq> None"
proof (induction its arbitrary: it self)
  case Nil
  then show ?case by simp
next
  case (Cons i rest)
  let ?s1 = "self\<lparr>requests := requests self @ [messages self @ [next_action_prompt C q i None]]\<rparr>"
  have r: "repl_env (snd (process_response C response ?s1)) \<noteq> None" for response
    using Cons.prems by (simp add: process_response_repl_env)
  show ?case
    by (cases rule: completion_loop_cases[where C=C and self=self and q=q and i=i
          and rest=rest and it=it]) (simp_all add: Cons.IH r Cons.prems)
qed

text \<open>The requests a loop adds, stated as: old requests, then the new ones.\<close>

lemma completion_loop_requests:
  "\<exists>new. requests (snd (snd (completion_loop C q its it self))) = requests self @ new
     \<and> length new \<le> length its
     \<and> (its \<noteq> [] \<longrightarrow> new \<noteq> [] \<and> hd new = messages self @ [next_action_prompt C q (hd its) None])
     \<and> (\<forall>req\<in>set new. \<exists>j\<in>set its. req \<noteq> [] \<and> last req = next_action_prompt C q j None)
     \<and> (fst (completion_loop C q its it self) = Returns None \<longrightarrow> length new = length its)"
proof (induction its arbitrary: it self)
  case Nil
  show ?case by simp
next
  case (Cons i rest)
  let ?req = "messages self @ [next_action_prompt C q i None]"
  let ?s1 = "self\<lparr>requests := requests self @ [?req]\<rparr>"
  show ?case
  proof (cases rule: completion_loop_cases[where C=C and self=self and q=q and i=i
          and rest=rest and it=it])
    case (Fault e)
    then show ?thesis by (intro exI[of _ "[?req]"]) simp
  next
    case (Raise response e)
    then show ?thesis by (intro exI[of _ "[?req]"]) simp
  next
    case (Diverge response)
    then show ?thesis by (intro exI[of _ "[?req]"]) simp
  next
    case (Final response answer)
    then show ?thesis by (intro exI[of _ "[?req]"]) simp
  next
    case (Continue response)
    let ?s2 = "snd (process_response C response ?s1)"
    from Cons.IH[of "Some i" ?s2] obtain new where
      n: "requests (snd (snd (completion_loop C q rest (Some i) ?s2))) = requests ?s2 @ new"
      "length new \<le> length rest"
      "\<forall>req\<in>set new. \<exists>j\<in>set rest. req \<noteq> [] \<and> last req = next_action_prompt C q j None"
      "fst (completion_loop C q rest (Some i) ?s2) = Returns None \<longrightarrow> length new = length rest"
      by blast
    have "requests ?s2 = requests self @ [?req]" by simp
    with n Continue(4) show ?thesis
      by (intro exI[of _ "?req # new"]) auto
  qed
qed

lemma completion_loop_exhausted_iteration:
  "fst (completion_loop C q its it self) = Returns None \<Longrightarrow>
   fst (snd (completion_loop C q its it self)) = (if its = [] then it else Some (last its))"
proof (induction its arbitrary: it self)
  case Nil
  show ?case by simp
next
  case (Cons i rest)
  show ?case
  proof (cases rule: completion_loop_cases[where C=C and self=self and q=q and i=i
          and rest=rest and it=it])
    case (Continue response)
    with Cons.prems Cons.IH[of "Some i" "snd (process_response C response
        (self\<lparr>requests := requests self @ [messages self @ [next_action_prompt C q i None]]\<rparr>))"]
    show ?thesis by simp
  qed (use Cons.prems in simp_all)
qed


lemma completion_loop_append:
  "completion_loop C q (xs @ ys) it self =
     (case completion_loop C q xs it self of
        (Returns None, it', s) \<Rightarrow> completion_loop C q ys it' s
      | r \<Rightarrow> r)"
proof (induction xs arbitrary: it self)
  case Nil
  show ?case by simp
next
  case (Cons i rest)
  have "completion_loop C q (i # (rest @ ys)) it self =
     (case completion_loop C q (i # rest) it self of
        (Returns None, it', s) \<Rightarrow> completion_loop C q ys it' s
      | r \<Rightarrow> r)"
  proof (cases rule: completion_loop_cases[where C=C and self=self and q=q and i=i
          and rest=rest and it=it])
    case (Fault e)
    then show ?thesis by (simp add: llm_call_def)
  next
    case (Raise response e)
    then show ?thesis
      by (cases "process_response C response
        (self\<lparr>requests := requests self @ [messages self @ [next_action_prompt C q i None]]\<rparr>)")
         (simp add: llm_call_def)
  next
    case (Diverge response)
    then show ?thesis
      by (cases "process_response C response
        (self\<lparr>requests := requests self @ [messages self @ [next_action_prompt C q i None]]\<rparr>)")
         (simp add: llm_call_def)
  next
    case (Final response answer)
    then show ?thesis
      by (cases "process_response C response
        (self\<lparr>requests := requests self @ [messages self @ [next_action_prompt C q i None]]\<rparr>)")
         (simp add: llm_call_def)
  next
    case (Continue response)
    then show ?thesis
      by (cases "process_response C response
        (self\<lparr>requests := requests self @ [messages self @ [next_action_prompt C q i None]]\<rparr>)";
          cases "check_for_final_answer C response (repl_env (snd (process_response C response
        (self\<lparr>requests := requests self @ [messages self @ [next_action_prompt C q i None]]\<rparr>))))")
         (simp_all add: llm_call_def Cons.IH)
  qed
  then show ?case by simp
qed

lemma upt_split_at: "a < b \<Longrightarrow> [0..<b] = [0..<a] @ a # [Suc a..<b]" for a b :: nat
  using upt_add_eq_append[of 0 a "b - a"] by (simp add: upt_conv_Cons)

lemma py_range_split:
  "0 \<le> i \<Longrightarrow> i < n \<Longrightarrow> py_range n = py_range i @ i # map int [Suc (nat i)..<nat n]"
proof -
  assume a: "0 \<le> i" "i < n"
  then have lt: "nat i < nat n" by linarith
  from upt_split_at[OF lt] a show ?thesis by (simp add: py_range_def)
qed

lemma py_range_nonpos: "n \<le> 0 \<Longrightarrow> py_range n = []"
  by (simp add: py_range_def)

lemma py_range_last: "0 < n \<Longrightarrow> py_range n \<noteq> [] \<and> last (py_range n) = n - 1 \<and> length (py_range n) = nat n"
  by (cases "nat n") (auto simp: py_range_def last_map)

lemma py_range_1: "py_range 1 = [0]"
  by (simp add: py_range_def)
lemma py_range_2: "py_range 2 = [0, 1]"
  by (simp add: py_range_def upt_rec)
lemma py_range_0: "py_range 0 = []"
  by (simp add: py_range_def)


subsection \<open>Further facts about the loop and the whole run\<close>

lemma exec_code_blocks_requests_update:
  "exec_code_blocks C bs (self\<lparr>requests := x\<rparr>) =
     (fst (exec_code_blocks C bs self), (snd (exec_code_blocks C bs self))\<lparr>requests := x\<rparr>)"
proof (induction bs arbitrary: self)
  case Nil
  show ?case by simp
next
  case (Cons b bs)
  show ?case
  proof (cases "repl_env self")
    case None
    then show ?thesis by simp
  next
    case (Some env)
    show ?thesis
    proof (cases "code_execution C env b")
      case None
      with Some show ?thesis by simp
    next
      case (Some p)
      obtain r env' where p: "p = (r, env')" by (cases p)
      let ?s = "self\<lparr>repl_env := Some env',
                       logged := logged self @
                         [Log_code_execution b (stdout r) (stderr r) (execution_time r)],
                       messages := messages self @ [tool_response r]\<rparr>"
      let ?t = "(self\<lparr>requests := x\<rparr>)\<lparr>repl_env := Some env',
                       logged := logged self @
                         [Log_code_execution b (stdout r) (stderr r) (execution_time r)],
                       messages := messages self @ [tool_response r]\<rparr>"
      have eq: "?t = ?s\<lparr>requests := x\<rparr>"
        by (cases self) simp
      have l: "exec_code_blocks C (b # bs) (self\<lparr>requests := x\<rparr>) = exec_code_blocks C bs ?t"
        using \<open>repl_env self = Some env\<close> Some p by simp
      have r: "exec_code_blocks C (b # bs) self = exec_code_blocks C bs ?s"
        using \<open>repl_env self = Some env\<close> Some p by simp
      have "exec_code_blocks C bs ?t = exec_code_blocks C bs (?s\<lparr>requests := x\<rparr>)"
        by (rule arg_cong[OF eq])
      also have "\<dots> =
        (fst (exec_code_blocks C bs ?s), (snd (exec_code_blocks C bs ?s))\<lparr>requests := x\<rparr>)"
        by (rule Cons.IH)
      finally show ?thesis
        unfolding l r .
    qed
  qed
qed

lemma process_response_requests_update:
  "process_response C response (self\<lparr>requests := x\<rparr>) =
     (fst (process_response C response self),
      (snd (process_response C response self))\<lparr>requests := x\<rparr>)"
proof (cases "find_code_blocks C response")
  case None
  then show ?thesis by (simp add: process_response_None)
next
  case (Some bs)
  let ?s = "self\<lparr>logged := logged self @ [Log_model_response response True],
             messages := messages self @ [\<lparr>role = ascii ''assistant'', content = response\<rparr>]\<rparr>"
  let ?t = "(self\<lparr>requests := x\<rparr>)\<lparr>logged := logged self @ [Log_model_response response True],
             messages := messages self @ [\<lparr>role = ascii ''assistant'', content = response\<rparr>]\<rparr>"
  have eq: "?t = ?s\<lparr>requests := x\<rparr>"
    by (cases self) simp
  have l: "process_response C response (self\<lparr>requests := x\<rparr>) = exec_code_blocks C bs ?t"
    using Some by (simp add: process_response_Some)
  have r: "process_response C response self = exec_code_blocks C bs ?s"
    using Some by (simp add: process_response_Some)
  have "exec_code_blocks C bs ?t = exec_code_blocks C bs (?s\<lparr>requests := x\<rparr>)"
    by (rule arg_cong[OF eq])
  also have "\<dots> =
     (fst (exec_code_blocks C bs ?s), (snd (exec_code_blocks C bs ?s))\<lparr>requests := x\<rparr>)"
    by (rule exec_code_blocks_requests_update)
  finally show ?thesis
    unfolding l r .
qed

lemma completion_loop_logged_prefix:
  "prefix (logged self) (logged (snd (snd (completion_loop C q its it self))))"
proof (induction its arbitrary: it self)
  case Nil
  show ?case by simp
next
  case (Cons i rest)
  let ?s1 = "self\<lparr>requests := requests self @ [messages self @ [next_action_prompt C q i None]]\<rparr>"
  have p: "prefix (logged self) (logged (snd (process_response C response ?s1)))" for response
    using process_response_logged_prefix[of ?s1 C response] by simp
  show ?case
  proof (cases rule: completion_loop_cases[where C=C and self=self and q=q and i=i
          and rest=rest and it=it])
    case (Fault e)
    then show ?thesis by simp
  next
    case (Raise response e)
    with p show ?thesis by simp
  next
    case (Diverge response)
    with p show ?thesis by simp
  next
    case (Final response answer)
    with p[of response] show ?thesis by (simp add: prefix_prefix)
  next
    case (Continue response)
    from Cons.IH[where it="Some i" and self="snd (process_response C response ?s1)"] p[of response]
    have "prefix (logged self)
       (logged (snd (snd (completion_loop C q rest (Some i) (snd (process_response C response ?s1))))))"
      by (rule prefix_order.trans[rotated])
    with Continue show ?thesis by simp
  qed
qed

lemma completion_loop_messages_prefix:
  "prefix (messages self) (messages (snd (snd (completion_loop C q its it self))))"
proof (induction its arbitrary: it self)
  case Nil
  show ?case by simp
next
  case (Cons i rest)
  let ?s1 = "self\<lparr>requests := requests self @ [messages self @ [next_action_prompt C q i None]]\<rparr>"
  have p: "prefix (messages self) (messages (snd (process_response C response ?s1)))" for response
    using process_response_messages_prefix[of ?s1 C response] by simp
  show ?case
  proof (cases rule: completion_loop_cases[where C=C and self=self and q=q and i=i
          and rest=rest and it=it])
    case (Fault e)
    then show ?thesis by simp
  next
    case (Raise response e)
    with p show ?thesis by simp
  next
    case (Diverge response)
    with p show ?thesis by simp
  next
    case (Final response answer)
    with p[of response] show ?thesis by simp
  next
    case (Continue response)
    from Cons.IH[where it="Some i" and self="snd (process_response C response ?s1)"] p[of response]
    have "prefix (messages self)
       (messages (snd (snd (completion_loop C q rest (Some i) (snd (process_response C response ?s1))))))"
      by (rule prefix_order.trans[rotated])
    with Continue show ?thesis by simp
  qed
qed


lemma setup_context_frame:
  "setup_context C self context q = (out, s) \<Longrightarrow>
   requests s = requests self \<and> max_iterations s = max_iterations self
   \<and> query s = Some (case q of None \<Rightarrow> DEFAULT_QUERY C | Some q' \<Rightarrow> q')
   \<and> logged s = logged self @
             [Log_query_start (case q of None \<Rightarrow> DEFAULT_QUERY C | Some q' \<Rightarrow> q'),
              Log_initial_messages (build_system_prompt C)]
   \<and> out \<noteq> Diverges
   \<and> (\<forall>msgs. out = Returns msgs \<longrightarrow> msgs = messages s \<and> repl_env s \<noteq> None)"
  by (cases "convert_context_for_repl C context")
     (auto simp: setup_context_def Let_def split: prod.splits)

lemma force_final_Some:
  "force_final C q (Some i) s =
     (let forced = next_action_prompt C q i (Some True);
          s' = s\<lparr>messages := messages s @ [forced],
                 requests := requests s @ [messages s @ [forced]]\<rparr>
      in case llm_completion C (requests s) (messages s @ [forced]) of
           Inl e \<Rightarrow> (Raises e, s')
         | Inr final_answer \<Rightarrow>
             (Returns final_answer,
              s'\<lparr>logged := logged s' @ [Log_final_response final_answer]\<rparr>))"
  by (simp add: force_final_def llm_call_def Let_def split: sum.splits)

text \<open>The state a run ends in, by cases on where it ends.\<close>

lemma completion_state_cases [consumes 0, case_names Setup Loop Forced]:
  fixes C :: "('ctx, 'cd, 'cs, 'env, 't) collaborators" and self :: "('env, 't) rlm"
    and ctx :: 'ctx and q :: "str option"
  defines "s1 \<equiv> snd (setup_context C self ctx q)"
  defines "s \<equiv> snd (snd (completion_loop C q (py_range (max_iterations s1)) None s1))"
  obtains
    (Setup) "snd (completion C self ctx q) = s1"
  | (Loop) "snd (completion C self ctx q) = s"
  | (Forced) i final where
      "snd (completion C self ctx q) =
         s\<lparr>messages := messages s @ [next_action_prompt C q i (Some True)],
           requests := requests s @ [messages s @ [next_action_prompt C q i (Some True)]],
           logged := logged s @ final\<rparr>"
proof -
  obtain o1 t1 where su: "setup_context C self ctx q = (o1, t1)"
    by (cases "setup_context C self ctx q")
  then have t1: "t1 = s1" by (simp add: s1_def)
  show ?thesis
  proof (cases o1)
    case (Raises e)
    with su t1 have "snd (completion C self ctx q) = s1" by (simp add: completion_def)
    then show ?thesis by (rule Setup)
  next
    case Diverges
    with su t1 have "snd (completion C self ctx q) = s1" by (simp add: completion_def)
    then show ?thesis by (rule Setup)
  next
    case (Returns msgs)
    from setup_context_frame[OF su] Returns t1 have "msgs = messages s1" by simp
    then have m: "s1\<lparr>messages := msgs\<rparr> = s1" by simp
    obtain out it t where l: "completion_loop C q (py_range (max_iterations s1)) None s1 = (out, it, t)"
      by (cases "completion_loop C q (py_range (max_iterations s1)) None s1")
    then have t: "t = s" by (simp add: s_def)
    have c: "completion C self ctx q =
       (case (out, it, t) of
             (Raises e, iteration, self2) \<Rightarrow> (Raises e, self2)
           | (Diverges, iteration, self2) \<Rightarrow> (Diverges, self2)
           | (Returns (Some final_answer), iteration, self2) \<Rightarrow> (Returns final_answer, self2)
           | (Returns None, iteration, self2) \<Rightarrow> force_final C q iteration self2)"
      using su Returns t1 m l by (simp add: completion_def)
    show ?thesis
    proof (cases out)
      case (Raises e)
      with c t have "snd (completion C self ctx q) = s" by simp
      then show ?thesis by (rule Loop)
    next
      case Diverges
      with c t have "snd (completion C self ctx q) = s" by simp
      then show ?thesis by (rule Loop)
    next
      case (Returns x)
      show ?thesis
      proof (cases x)
        case (Some a)
        with c t Returns have "snd (completion C self ctx q) = s" by simp
        then show ?thesis by (rule Loop)
      next
        case None
        with c t Returns have ff: "completion C self ctx q = force_final C q it s" by simp
        show ?thesis
        proof (cases it)
          case None
          with ff have "snd (completion C self ctx q) = s" by (simp add: force_final_def)
          then show ?thesis by (rule Loop)
        next
          case (Some i)
          let ?forced = "next_action_prompt C q i (Some True)"
          show ?thesis
          proof (cases "llm_completion C (requests s) (messages s @ [?forced])")
            case (Inl e)
            with ff Some have "snd (completion C self ctx q) =
               s\<lparr>messages := messages s @ [?forced],
                 requests := requests s @ [messages s @ [?forced]],
                 logged := logged s @ []\<rparr>"
              by (simp add: force_final_Some Let_def)
            then show ?thesis by (rule Forced)
          next
            case (Inr final)
            with ff Some have "snd (completion C self ctx q) =
               s\<lparr>messages := messages s @ [?forced],
                 requests := requests s @ [messages s @ [?forced]],
                 logged := logged s @ [Log_final_response final]\<rparr>"
              by (simp add: force_final_Some Let_def)
            then show ?thesis by (rule Forced)
          qed
        qed
      qed
    qed
  qed
qed

lemma setup_context_state:
  "requests (snd (setup_context C self ctx q)) = requests self"
  "query (snd (setup_context C self ctx q)) =
     Some (case q of None \<Rightarrow> DEFAULT_QUERY C | Some q' \<Rightarrow> q')"
  "logged (snd (setup_context C self ctx q)) = logged self @
     [Log_query_start (case q of None \<Rightarrow> DEFAULT_QUERY C | Some q' \<Rightarrow> q'),
      Log_initial_messages (build_system_prompt C)]"
  by (cases "convert_context_for_repl C ctx";
      simp add: setup_context_def Let_def split: prod.splits)+

lemma completion_query:
  "query (snd (completion C self ctx q)) =
     Some (case q of None \<Rightarrow> DEFAULT_QUERY C | Some q' \<Rightarrow> q')"
  by (cases rule: completion_state_cases[where C=C and self=self and ctx=ctx and q=q])
     (simp_all add: completion_loop_query setup_context_state)

lemma completion_logged_prefix:
  "prefix (logged self @
      [Log_query_start (case q of None \<Rightarrow> DEFAULT_QUERY C | Some q' \<Rightarrow> q')])
     (logged (snd (completion C self ctx q)))"
proof -
  let ?q = "case q of None \<Rightarrow> DEFAULT_QUERY C | Some q' \<Rightarrow> q'"
  let ?s1 = "snd (setup_context C self ctx q)"
  let ?s = "snd (snd (completion_loop C q (py_range (max_iterations ?s1)) None ?s1))"
  have 1: "prefix (logged self @ [Log_query_start ?q]) (logged ?s1)"
    by (simp add: setup_context_state prefix_def)
  have "prefix (logged ?s1) (logged ?s)"
    by (rule completion_loop_logged_prefix)
  with 1 have 2: "prefix (logged self @ [Log_query_start ?q]) (logged ?s)"
    by (rule prefix_order.trans)
  then have 3: "prefix (logged self @ [Log_query_start ?q]) (logged ?s @ final)" for final
    by (rule prefix_prefix)
  show ?thesis
    by (cases rule: completion_state_cases[where C=C and self=self and ctx=ctx and q=q])
       (simp_all add: 1 2 3)
qed

lemma completion_requests:
  "\<exists>new. requests (snd (completion C self ctx q)) = requests self @ new
     \<and> (\<forall>req\<in>set new. \<exists>i fa. req \<noteq> [] \<and> last req = next_action_prompt C q i fa)"
proof -
  let ?s1 = "snd (setup_context C self ctx q)"
  let ?its = "py_range (max_iterations ?s1)"
  let ?s = "snd (snd (completion_loop C q ?its None ?s1))"
  let ?ok = "\<lambda>new. \<forall>req\<in>set new. \<exists>i fa. req \<noteq> [] \<and> last req = next_action_prompt C q i fa"
  have r1: "requests ?s1 = requests self" by (rule setup_context_state)
  from completion_loop_requests[of C q ?its None ?s1] obtain new where
    n: "requests ?s = requests ?s1 @ new"
    and b: "\<forall>req\<in>set new. \<exists>j\<in>set ?its. req \<noteq> [] \<and> last req = next_action_prompt C q j None"
    by blast
  from b have ok: "?ok new" by blast
  from n r1 have rs: "requests ?s = requests self @ new" by simp
  show ?thesis
  proof (cases rule: completion_state_cases[where C=C and self=self and ctx=ctx and q=q])
    case Setup
    have "?ok []" by simp
    moreover from Setup r1 have "requests (snd (completion C self ctx q)) = requests self @ []"
      by simp
    ultimately show ?thesis by blast
  next
    case Loop
    with rs have "requests (snd (completion C self ctx q)) = requests self @ new" by simp
    with ok show ?thesis by blast
  next
    case (Forced i final)
    let ?forced = "next_action_prompt C q i (Some True)"
    from Forced rs have "requests (snd (completion C self ctx q)) =
        requests self @ (new @ [messages ?s @ [?forced]])" by simp
    moreover have "?ok (new @ [messages ?s @ [?forced]])"
    proof
      fix req assume "req \<in> set (new @ [messages ?s @ [?forced]])"
      then consider "req \<in> set new" | "req = messages ?s @ [?forced]" by auto
      then show "\<exists>i fa. req \<noteq> [] \<and> last req = next_action_prompt C q i fa"
      proof cases
        case 1
        with ok show ?thesis by blast
      next
        case 2
        then have "req \<noteq> [] \<and> last req = next_action_prompt C q i (Some True)" by simp
        then show ?thesis by blast
      qed
    qed
    ultimately show ?thesis by blast
  qed
qed

section \<open>The claims\<close>

subsection \<open>C1: truncation of captured output\<close>

text \<open>
  C1 (as amended). For every executed fragment, the user message appended to the
  conversation holds the label \<open>stdout:\<close>, then the first 2000 characters of the captured
  stdout (all of it when it is no longer), then the label \<open>stderr:\<close>, then the first 500
  characters of the captured stderr (all of it when it is no longer). Nothing marks a
  truncation: the cut text is followed directly by what follows an uncut one.
\<close>

theorem truncated_output_in_conversation:
  assumes "repl_env self = Some env" and "run_fragments C env blocks = Some (results, env')"
  shows "messages (snd (exec_code_blocks C blocks self)) =
           messages self @
           map (\<lambda>r. \<lparr>role = ascii ''user'',
                      content = ascii ''REPL environment returned:\<newline>stdout: ''
                                @ take 2000 (stdout r)
                                @ ascii ''\<newline>stderr: '' @ take 500 (stderr r)\<rparr>) results"
  using exec_code_blocks_returns[OF assms] by (simp add: tool_response_take)

theorem truncated_output_in_conversation_witness:
  "messages (snd (exec_code_blocks demo_long [[10]] (init [] 1\<lparr>repl_env := Some 0\<rparr>))) =
     [\<lparr>role = ascii ''user'',
       content = ascii ''REPL environment returned:\<newline>stdout: '' @ replicate 2000 7
                 @ ascii ''\<newline>stderr: '' @ replicate 500 8\<rparr>]"
proof -
  have e: "repl_env ((init [] 1 :: (nat, nat) rlm)\<lparr>repl_env := Some 0\<rparr>) = Some 0"
    by simp
  have r: "run_fragments demo_long 0 [[10]] =
      Some ([\<lparr>stdout = replicate 2001 7, stderr = replicate 501 8, execution_time = 0\<rparr>], Suc 0)"
    by (simp add: demo_long_def demo_def)
  show ?thesis
    using truncated_output_in_conversation[OF e r] by (simp add: init_def)
qed

text \<open>
  The claim as stated asks for a truncation marker after the first 2000 (500)
  characters. A stdout of 2001 characters yields the header, its first 2000 characters
  and at once the stderr label: the very content a stdout of 2000 characters yields.
  The same holds for a stderr of 501 characters.
\<close>

theorem truncation_marker_counterexample:
  "content (tool_response \<lparr>stdout = replicate 2001 7, stderr = [], execution_time = 0 :: nat\<rparr>) =
     ascii ''REPL environment returned:\<newline>stdout: '' @ replicate 2000 7
     @ ascii ''\<newline>stderr: ''
   \<and> content (tool_response \<lparr>stdout = replicate 2001 7, stderr = [], execution_time = 0 :: nat\<rparr>) =
     content (tool_response \<lparr>stdout = replicate 2000 7, stderr = [], execution_time = 0 :: nat\<rparr>)
   \<and> content (tool_response \<lparr>stdout = [], stderr = replicate 501 8, execution_time = 0 :: nat\<rparr>) =
     content (tool_response \<lparr>stdout = [], stderr = replicate 500 8, execution_time = 0 :: nat\<rparr>)"
  by (simp add: tool_response_def Let_def)

subsection \<open>C2: a run returns an answer\<close>




subsection \<open>C3: exhausting the iterations\<close>

text \<open>
  C3 (as amended). Let \<open>max_iterations\<close> be at least 1 and let the loop run through all
  its iterations without detecting a final answer (so no request failed and every
  fragment returned). Then the loop has sent exactly \<open>max_iterations\<close> requests, the local
  variable \<open>iteration\<close> holds \<open>max_iterations - 1\<close>, and \<open>completion\<close> appends the forced
  instruction \<open>next_action_prompt(query, max_iterations - 1, final_answer=True)\<close> to the
  conversation, sends the conversation as one more request, and returns the text of that
  completion unchanged (or raises what the transport raised).
\<close>

theorem forced_final_after_exhaustion:
  assumes "setup_context C self context q = (Returns msgs, self1)"
    and "0 < max_iterations self"
    and "completion_loop C q (py_range (max_iterations self1)) None (self1\<lparr>messages := msgs\<rparr>)
           = (Returns None, iteration, s)"
  shows "length (requests s) = length (requests self) + nat (max_iterations self)
       \<and> iteration = Some (max_iterations self - 1)
       \<and> completion C self context q =
           (let forced = next_action_prompt C q (max_iterations self - 1) (Some True);
                s' = s\<lparr>messages := messages s @ [forced],
                       requests := requests s @ [messages s @ [forced]]\<rparr>
            in case llm_completion C (requests s) (messages s @ [forced]) of
                 Inl e \<Rightarrow> (Raises e, s')
               | Inr final_answer \<Rightarrow>
                   (Returns final_answer,
                    s'\<lparr>logged := logged s' @ [Log_final_response final_answer]\<rparr>))"
proof -
  from setup_context_frame[OF assms(1)]
  have f: "requests self1 = requests self" "max_iterations self1 = max_iterations self"
    by simp_all
  let ?n = "max_iterations self"
  let ?s0 = "self1\<lparr>messages := msgs\<rparr>"
  from assms(3) f have l: "completion_loop C q (py_range ?n) None ?s0 = (Returns None, iteration, s)"
    by simp
  then have e: "fst (completion_loop C q (py_range ?n) None ?s0) = Returns None" by simp
  from completion_loop_exhausted_iteration[OF e] l py_range_last[OF assms(2)]
  have it: "iteration = Some (?n - 1)" by simp
  from completion_loop_requests[of C q "py_range ?n" None ?s0] obtain new where
    n: "requests (snd (snd (completion_loop C q (py_range ?n) None ?s0))) = requests ?s0 @ new"
    "fst (completion_loop C q (py_range ?n) None ?s0) = Returns None \<longrightarrow>
       length new = length (py_range ?n)"
    by blast
  with e l f py_range_last[OF assms(2)]
  have len: "length (requests s) = length (requests self) + nat ?n" by simp
  have c: "completion C self context q = force_final C q iteration s"
    using assms(1) l f by (simp add: completion_def)
  show ?thesis
    using len it c by (simp add: force_final_Some)
qed

text \<open>
  With \<open>max_iterations = 1\<close>: one request in the loop, then the forced instruction and
  a second request, whose text \<open>[1]\<close> is the answer.
\<close>

theorem forced_final_after_exhaustion_witness:
  "length (requests (snd (snd (completion_loop demo (Some [7]) (py_range 1) None
       (snd (setup_context demo (init [] 1) [5] (Some [7]))))))) = 1
   \<and> fst (completion demo (init [] 1) [5] (Some [7])) = Returns [1]
   \<and> length (requests (snd (completion demo (init [] 1) [5] (Some [7])))) = 2
   \<and> last (messages (snd (completion demo (init [] 1) [5] (Some [7])))) =
       next_action_prompt demo (Some [7]) 0 (Some True)"
proof -
  let ?self = "init [] 1 :: (nat, nat) rlm"
  let ?s1 = "snd (setup_context demo ?self [5] (Some [7]))"
  let ?s = "snd (snd (completion_loop demo (Some [7]) (py_range 1) None ?s1))"
  have a: "setup_context demo ?self [5] (Some [7]) = (Returns (messages ?s1), ?s1)"
    by (simp add: setup_context_def demo_def Let_def)
  have m: "max_iterations ?s1 = 1"
    by (simp add: setup_context_def demo_def Let_def init_def)
  have b: "0 < max_iterations ?self" by (simp add: init_def)
  have c: "completion_loop demo (Some [7]) (py_range (max_iterations ?s1)) None
             (?s1\<lparr>messages := messages ?s1\<rparr>) = (Returns None, Some 0, ?s)"
    unfolding m
    by (simp add: setup_context_def demo_def Let_def init_def py_range_1 llm_call_def
        process_response_def process_code_with_logging_def)
  have r: "length (requests ?self) = 0" "max_iterations ?self = 1"
    by (simp_all add: init_def)
  have v: "llm_completion demo h x = Inr [length h]" for h x
    by (simp add: demo_def)
  have l: "length (requests ?s) = 1"
    using forced_final_after_exhaustion[OF a b c] r by simp
  have "completion demo ?self [5] (Some [7]) =
      (Returns [1], ?s\<lparr>messages := messages ?s @ [next_action_prompt demo (Some [7]) 0 (Some True)],
           requests := requests ?s @ [messages ?s @ [next_action_prompt demo (Some [7]) 0 (Some True)]],
           logged := logged ?s @ [Log_final_response [1]]\<rparr>)"
    using forced_final_after_exhaustion[OF a b c] r v l by (simp add: Let_def)
  with l show ?thesis by simp
qed

text \<open>
  The claim as stated covers every run in which no final answer is detected. With
  \<open>max_iterations = 0\<close> no request is sent and no instruction is appended; with
  \<open>max_iterations = 2\<close>, a failing transport or a fragment that never returns ends the
  run after one request, with no forced completion.
\<close>

theorem exhaustion_counterexample:
  "completion demo (init [] 0) [5] (Some [7]) =
     (Raises (UnboundLocalError ''iteration''),
      \<lparr>recursive_model = [], max_iterations = 0,
       messages = [\<lparr>role = [0], content = [1]\<rparr>], query = Some [7],
       repl_env = Some 0, requests = [],
       logged = [Log_query_start [7],
                 Log_initial_messages [\<lparr>role = [0], content = [1]\<rparr>]]\<rparr>)
   \<and> fst (completion demo_offline (init [] 2) [5] (Some [7])) = Raises (CollaboratorError [9])
   \<and> length (requests (snd (completion demo_offline (init [] 2) [5] (Some [7])))) = 1
   \<and> fst (completion demo_blocked (init [] 2) [5] (Some [7])) = Diverges
   \<and> length (requests (snd (completion demo_blocked (init [] 2) [5] (Some [7])))) = 1"
  by (simp add: demo_blocked_def demo_offline_def demo_def init_def completion_def
      setup_context_def py_range_2 py_range_0 llm_call_def process_response_def
      process_code_with_logging_def force_final_def Let_def)

subsection \<open>C4: a detected final answer ends the run\<close>

text \<open>
  C4. Take any iteration \<open>i\<close> of a run: the iterations before it went by without a
  final answer, the transport has answered the request of iteration \<open>i\<close>, and the
  response has been folded into the conversation (its fragments, if any, executed),
  leaving the state \<open>s2\<close>. The final-answer check is made on the response and the REPL environment
  of \<open>s2\<close>, that is, after the processing. When it yields a non-empty text,
  \<open>completion\<close> returns that text, in the state \<open>s2\<close> with only the logger told: the
  request of iteration \<open>i\<close> is the last one sent, and no later iteration runs.
\<close>

theorem final_answer_returns_immediately:
  assumes "setup_context C self context q = (Returns msgs, self1)"
    and "0 \<le> i" and "i < max_iterations self1"
    and "completion_loop C q (py_range i) None (self1\<lparr>messages := msgs\<rparr>)
           = (Returns None, iteration, s)"
    and "llm_completion C (requests s) (messages s @ [next_action_prompt C q i None])
           = Inr response"
    and "process_response C response
           (s\<lparr>requests := requests s @ [messages s @ [next_action_prompt C q i None]]\<rparr>)
           = (Returns (), s2)"
    and "check_for_final_answer C response (repl_env s2) = Some answer"
    and "answer \<noteq> []"
  shows "completion C self context q =
           (Returns answer, s2\<lparr>logged := logged s2 @ [Log_final_response answer]\<rparr>)
         \<and> requests s2 = requests s @ [messages s @ [next_action_prompt C q i None]]"
proof -
  let ?n = "max_iterations self1"
  let ?tail = "map int [Suc (nat i)..<nat ?n]"
  let ?s0 = "self1\<lparr>messages := msgs\<rparr>"
  have r: "py_range ?n = py_range i @ i # ?tail"
    using assms(2,3) by (rule py_range_split)
  have one: "completion_loop C q (i # ?tail) iteration s =
      (Returns (Some answer), Some i, s2\<lparr>logged := logged s2 @ [Log_final_response answer]\<rparr>)"
    using assms(5-8) by (simp add: llm_call_def)
  have "completion_loop C q (py_range ?n) None ?s0 = completion_loop C q (i # ?tail) iteration s"
    unfolding r completion_loop_append using assms(4) by simp
  with one have "completion_loop C q (py_range ?n) None ?s0 =
      (Returns (Some answer), Some i, s2\<lparr>logged := logged s2 @ [Log_final_response answer]\<rparr>)"
    by simp
  with assms(1) have c: "completion C self context q =
           (Returns answer, s2\<lparr>logged := logged s2 @ [Log_final_response answer]\<rparr>)"
    by (simp add: completion_def)
  have "requests (snd (process_response C response
           (s\<lparr>requests := requests s @ [messages s @ [next_action_prompt C q i None]]\<rparr>)))
        = requests s @ [messages s @ [next_action_prompt C q i None]]"
    by simp
  with assms(6) have "requests s2 = requests s @ [messages s @ [next_action_prompt C q i None]]"
    by simp
  with c show ?thesis by simp
qed

text \<open>
  In the instance, iteration 0 executes two fragments and finds no answer; iteration 1
  executes a third fragment, and the check, which needs three executed fragments,
  finds the answer in the same iteration. Two requests are sent, though
  \<open>max_iterations\<close> is 5.
\<close>

theorem final_answer_returns_immediately_witness:
  "fst (completion demo (init [] 5) [5] (Some [7])) = Returns [42]
   \<and> length (requests (snd (completion demo (init [] 5) [5] (Some [7])))) = 2
   \<and> repl_env (snd (completion demo (init [] 5) [5] (Some [7]))) = Some 3"
proof -
  let ?self = "init [] 5 :: (nat, nat) rlm"
  let ?q = "Some [7] :: str option"
  let ?s1 = "snd (setup_context demo ?self [5] ?q)"
  let ?s = "snd (snd (completion_loop demo ?q (py_range 1) None ?s1))"
  let ?req = "messages ?s @ [next_action_prompt demo ?q 1 None]"
  let ?s2 = "snd (process_response demo [1] (?s\<lparr>requests := requests ?s @ [?req]\<rparr>))"
  note defs = setup_context_def demo_def Let_def init_def py_range_1 llm_call_def
        process_response_def process_code_with_logging_def
  have a: "setup_context demo ?self [5] ?q = (Returns (messages ?s1), ?s1)"
    by (simp add: setup_context_def demo_def Let_def)
  have b: "(0::int) \<le> 1" by simp
  have c: "1 < max_iterations ?s1" by (simp add: defs)
  have d: "completion_loop demo ?q (py_range 1) None (?s1\<lparr>messages := messages ?s1\<rparr>)
             = (Returns None, Some 0, ?s)"
    by (simp add: defs)
  have ls: "length (requests ?s) = 1" by (simp add: defs)
  have e: "llm_completion demo (requests ?s) ?req = Inr [1]"
    using ls by (simp add: demo_def)
  have f: "process_response demo [1] (?s\<lparr>requests := requests ?s @ [?req]\<rparr>) = (Returns (), ?s2)"
    by (simp add: defs)
  have env: "repl_env ?s2 = Some 3" by (simp add: defs)
  have g: "check_for_final_answer demo [1] (repl_env ?s2) = Some [42]"
    unfolding env by (simp add: demo_def)
  have h: "[42::nat] \<noteq> []" by simp
  from final_answer_returns_immediately[OF a b c d e f g h] ls env
  show ?thesis by simp
qed

subsection \<open>C5: a response with code fragments\<close>

text \<open>
  C5. When the response of an iteration holds code fragments, the iteration leaves the
  conversation extended by exactly one assistant message holding the raw response,
  followed by one user message per fragment, in the order of the fragments, each
  labelling the fragment's truncated stdout and stderr; each fragment runs in the
  REPL environment its predecessor left. One request, that of the iteration itself, has been
  sent; the next iteration (and so the next request) starts from this state.
\<close>

theorem code_response_folded_in_order:
  assumes "llm_completion C (requests self) (messages self @ [next_action_prompt C q i None])
             = Inr response"
    and "find_code_blocks C response = Some blocks"
    and "repl_env self = Some env"
    and "run_fragments C env blocks = Some (results, env')"
  shows "completion_loop C q (i # rest) it self =
           (let s2 = self
                  \<lparr>requests := requests self @ [messages self @ [next_action_prompt C q i None]],
                   logged := logged self @ Log_model_response response True #
                     map (\<lambda>(b, r). Log_code_execution b (stdout r) (stderr r) (execution_time r))
                       (zip blocks results),
                   messages := messages self @
                     \<lparr>role = ascii ''assistant'', content = response\<rparr> #
                     map (\<lambda>r. \<lparr>role = ascii ''user'',
                                content = ascii ''REPL environment returned:\<newline>stdout: ''
                                          @ take 2000 (stdout r)
                                          @ ascii ''\<newline>stderr: '' @ take 500 (stderr r)\<rparr>)
                       results,
                   repl_env := Some env'\<rparr>
            in case check_for_final_answer C response (Some env') of
                 None \<Rightarrow> completion_loop C q rest (Some i) s2
               | Some final_answer \<Rightarrow>
                   if final_answer \<noteq> []
                   then (Returns (Some final_answer), Some i,
                         s2\<lparr>logged := logged s2 @ [Log_final_response final_answer]\<rparr>)
                   else completion_loop C q rest (Some i) s2)
         \<and> length results = length blocks"
proof -
  let ?s1 = "self\<lparr>requests := requests self @ [messages self @ [next_action_prompt C q i None]]\<rparr>"
  let ?a = "?s1\<lparr>logged := logged ?s1 @ [Log_model_response response True],
             messages := messages ?s1 @ [\<lparr>role = ascii ''assistant'', content = response\<rparr>]\<rparr>"
  let ?b = "?a\<lparr>repl_env := Some env',
           logged := logged ?a @
             map (\<lambda>(b, r). Log_code_execution b (stdout r) (stderr r) (execution_time r))
               (zip blocks results),
           messages := messages ?a @ map tool_response results\<rparr>"
  let ?s2 = "self
                  \<lparr>requests := requests self @ [messages self @ [next_action_prompt C q i None]],
                   logged := logged self @ Log_model_response response True #
                     map (\<lambda>(b, r). Log_code_execution b (stdout r) (stderr r) (execution_time r))
                       (zip blocks results),
                   messages := messages self @
                     \<lparr>role = ascii ''assistant'', content = response\<rparr> #
                     map (\<lambda>r. \<lparr>role = ascii ''user'',
                                content = ascii ''REPL environment returned:\<newline>stdout: ''
                                          @ take 2000 (stdout r)
                                          @ ascii ''\<newline>stderr: '' @ take 500 (stderr r)\<rparr>)
                       results,
                   repl_env := Some env'\<rparr>"
  have "process_response C response ?s1 = exec_code_blocks C blocks ?a"
    by (rule process_response_Some[OF assms(2)])
  also have "\<dots> = (Returns (), ?b)"
    by (rule exec_code_blocks_returns[OF _ assms(4)]) (simp add: assms(3))
  also have "?b = ?s2"
    by (cases self) (simp add: tool_response_take)
  finally have pr: "process_response C response ?s1 = (Returns (), ?s2)" .
  have env: "repl_env ?s2 = Some env'" by simp
  have "completion_loop C q (i # rest) it self =
     (case check_for_final_answer C response (repl_env ?s2) of
                 None \<Rightarrow> completion_loop C q rest (Some i) ?s2
               | Some final_answer \<Rightarrow>
                   if final_answer \<noteq> []
                   then (Returns (Some final_answer), Some i,
                         ?s2\<lparr>logged := logged ?s2 @ [Log_final_response final_answer]\<rparr>)
                   else completion_loop C q rest (Some i) ?s2)"
    unfolding completion_loop.simps llm_call_def Let_def assms(1) sum.case prod.case
      outcome.case pr ..
  then show ?thesis
    unfolding env Let_def using run_fragments_length[OF assms(4)] by simp
qed

theorem code_response_folded_in_order_witness:
  "completion_loop demo (Some [7]) [0] None
      ((init [] 1)\<lparr>messages := [\<lparr>role = [0], content = [1]\<rparr>], repl_env := Some 0\<rparr>) =
     (Returns None, Some 0,
      \<lparr>recursive_model = [], max_iterations = 1,
       messages =
         [\<lparr>role = [0], content = [1]\<rparr>,
          \<lparr>role = ascii ''assistant'', content = [0]\<rparr>,
          \<lparr>role = ascii ''user'',
           content = ascii ''REPL environment returned:\<newline>stdout: '' @ [10, 0]
                     @ ascii ''\<newline>stderr: '' @ []\<rparr>,
          \<lparr>role = ascii ''user'',
           content = ascii ''REPL environment returned:\<newline>stdout: '' @ [11, 1]
                     @ ascii ''\<newline>stderr: '' @ []\<rparr>],
       query = None, repl_env = Some 2,
       requests = [[\<lparr>role = [0], content = [1]\<rparr>, next_action_prompt demo (Some [7]) 0 None]],
       logged = [Log_model_response [0] True, Log_code_execution [10] [10, 0] [] 0,
                 Log_code_execution [11] [11, 1] [] 0]\<rparr>)"
proof -
  let ?self = "(init [] 1 :: (nat, nat) rlm)\<lparr>messages := [\<lparr>role = [0], content = [1]\<rparr>],
                  repl_env := Some 0\<rparr>"
  have a: "llm_completion demo (requests ?self)
             (messages ?self @ [next_action_prompt demo (Some [7]) 0 None]) = Inr [0]"
    by (simp add: demo_def init_def)
  have b: "find_code_blocks demo [0] = Some [[10], [11]]" by (simp add: demo_def)
  have c: "repl_env ?self = Some 0" by simp
  have d: "run_fragments demo 0 [[10], [11]] =
      Some ([\<lparr>stdout = [10, 0], stderr = [], execution_time = 0\<rparr>,
             \<lparr>stdout = [11, 1], stderr = [], execution_time = 0\<rparr>], 2)"
    by (simp add: demo_def)
  have e: "check_for_final_answer demo [0] (Some 2) = None" by (simp add: demo_def)
  show ?thesis
    using code_response_folded_in_order[OF a b c d, of "[]" None]
    by (simp add: Let_def e init_def)
qed

subsection \<open>C6: a response without code fragments\<close>



subsection \<open>C7: the next-action instruction is not persisted\<close>

text \<open>
  C7. The request of iteration \<open>i\<close> is the conversation followed by the instruction
  \<open>next_action_prompt(query, i)\<close>, built for that request alone. Sending it changes the
  transport's record of requests and nothing else, the conversation included; and the
  conversation after the iteration is the one that folding the response into the
  conversation before the request gives (the conversation itself, when the transport
  fails): the instruction is no part of it.
\<close>

theorem request_leaves_conversation_unchanged:
  "snd (llm_call C (messages self @ [next_action_prompt C q i None]) self) =
     self\<lparr>requests := requests self @ [messages self @ [next_action_prompt C q i None]]\<rparr>
   \<and> prefix (requests self @ [messages self @ [next_action_prompt C q i None]])
        (requests (snd (snd (completion_loop C q (i # rest) it self))))
   \<and> messages (snd (snd (completion_loop C q [i] it self))) =
       (case llm_completion C (requests self) (messages self @ [next_action_prompt C q i None]) of
          Inl e \<Rightarrow> messages self
        | Inr response \<Rightarrow> messages (snd (process_response C response self)))"
proof -
  let ?req = "messages self @ [next_action_prompt C q i None]"
  let ?s1 = "self\<lparr>requests := requests self @ [?req]\<rparr>"
  have 1: "snd (llm_call C ?req self) = ?s1"
    by (simp add: llm_call_def Let_def split: sum.splits)
  from completion_loop_requests[of C q "i # rest" it self] obtain new where
    n: "requests (snd (snd (completion_loop C q (i # rest) it self))) = requests self @ new"
       "new \<noteq> []" "hd new = ?req"
    by auto
  then obtain tl where "new = ?req # tl" by (cases new) auto
  with n(1) have 2: "prefix (requests self @ [?req])
        (requests (snd (snd (completion_loop C q (i # rest) it self))))"
    by (simp add: prefix_def)
  have m: "messages (snd (process_response C response ?s1)) =
           messages (snd (process_response C response self))" for response
    by (simp add: process_response_requests_update)
  have 3: "messages (snd (snd (completion_loop C q [i] it self))) =
       (case llm_completion C (requests self) ?req of
          Inl e \<Rightarrow> messages self
        | Inr response \<Rightarrow> messages (snd (process_response C response self)))"
    by (cases rule: completion_loop_cases[where C=C and self=self and q=q and i=i
          and rest="[]" and it=it]) (simp_all add: m)
  from 1 2 3 show ?thesis by simp
qed

theorem request_leaves_conversation_unchanged_witness:
  "messages (snd (llm_call demo ([] @ [next_action_prompt demo (Some [7]) 0 None])
       (init [] 1 :: (nat, nat) rlm))) = []
   \<and> requests (snd (llm_call demo ([] @ [next_action_prompt demo (Some [7]) 0 None])
       (init [] 1 :: (nat, nat) rlm))) = [[next_action_prompt demo (Some [7]) 0 None]]"
  using request_leaves_conversation_unchanged[of demo "init [] 1 :: (nat, nat) rlm" "Some [7]" 0 "[]" None]
  by (simp add: init_def)

subsection \<open>C8: a packaging fault precedes every model call\<close>

text \<open>
  C8. When \<open>convert_context_for_repl\<close> raises on the context, \<open>completion\<close> raises the
  same exception; the state it leaves has the query, the system prompt and the two log
  entries of \<open>setup_context\<close>, and the transport has received no request.
\<close>

theorem packaging_fault_before_any_model_call:
  assumes "convert_context_for_repl C context = Inl e"
  shows "completion C self context q =
           (Raises e,
            self\<lparr>query := Some (case q of None \<Rightarrow> DEFAULT_QUERY C | Some q' \<Rightarrow> q'),
                 messages := build_system_prompt C,
                 logged := logged self @
                   [Log_query_start (case q of None \<Rightarrow> DEFAULT_QUERY C | Some q' \<Rightarrow> q'),
                    Log_initial_messages (build_system_prompt C)]\<rparr>)
         \<and> requests (snd (completion C self context q)) = requests self"
  using assms by (simp add: completion_def setup_context_def Let_def)

theorem packaging_fault_before_any_model_call_witness:
  "completion demo (init [] 1) [] (Some [7]) =
     (Raises (CollaboratorError [3]),
      \<lparr>recursive_model = [], max_iterations = 1,
       messages = [\<lparr>role = [0], content = [1]\<rparr>], query = Some [7],
       repl_env = None, requests = [],
       logged = [Log_query_start [7],
                 Log_initial_messages [\<lparr>role = [0], content = [1]\<rparr>]]\<rparr>)
   \<and> requests (snd (completion demo (init [] 1) [] (Some [7]))) = []"
proof -
  have c: "convert_context_for_repl demo [] = Inl (CollaboratorError [3])"
    by (simp add: demo_def)
  show ?thesis
    using packaging_fault_before_any_model_call[OF c, of "init [] 1" "Some [7]"]
    by (simp add: init_def demo_def)
qed

subsection \<open>C9: no iterations\<close>

text \<open>
  C9. With \<open>max_iterations = 0\<close> and a context the packager accepts, \<open>completion\<close> sets
  the context up (query, system prompt, REPL environment), sends no request to the transport,
  and raises \<open>UnboundLocalError\<close>, a \<open>NameError\<close>, for the local variable \<open>iteration\<close>:
  the run ends with an exception, not with an answer.
\<close>

theorem zero_iterations_raises_NameError:
  assumes "max_iterations self = 0"
    and "convert_context_for_repl C context = Inr (context_data, context_str)"
  shows "completion C self context q =
           (Raises (UnboundLocalError ''iteration''),
            self\<lparr>query := Some (case q of None \<Rightarrow> DEFAULT_QUERY C | Some q' \<Rightarrow> q'),
                 messages := build_system_prompt C,
                 logged := logged self @
                   [Log_query_start (case q of None \<Rightarrow> DEFAULT_QUERY C | Some q' \<Rightarrow> q'),
                    Log_initial_messages (build_system_prompt C)],
                 repl_env := Some (REPLEnv C context_data context_str (recursive_model self))\<rparr>)
         \<and> is_NameError (UnboundLocalError ''iteration'')
         \<and> requests (snd (completion C self context q)) = requests self"
  using assms
  by (simp add: completion_def setup_context_def Let_def py_range_def force_final_def)

theorem zero_iterations_raises_NameError_witness:
  "completion demo (init [] 0) [5] (Some [7]) =
     (Raises (UnboundLocalError ''iteration''),
      \<lparr>recursive_model = [], max_iterations = 0,
       messages = [\<lparr>role = [0], content = [1]\<rparr>], query = Some [7],
       repl_env = Some 0, requests = [],
       logged = [Log_query_start [7],
                 Log_initial_messages [\<lparr>role = [0], content = [1]\<rparr>]]\<rparr>)"
proof -
  have m: "max_iterations (init [] 0 :: (nat, nat) rlm) = 0" by (simp add: init_def)
  have c: "convert_context_for_repl demo [5] = Inr ((), [5])" by (simp add: demo_def)
  show ?thesis
    using zero_iterations_raises_NameError[OF m c, of "Some [7]"]
    by (simp add: init_def demo_def)
qed

subsection \<open>C10: a missing query\<close>

text \<open>
  C10. When \<open>completion\<close> is called with \<open>query = None\<close>, the stored query is the default
  query and the logger is told the default query at query start; but every request the
  run sends ends with an instruction built by \<open>next_action_prompt\<close> from \<open>None\<close>, in the
  loop and at the forced final step alike.
\<close>

theorem none_query_reaches_prompts:
  "query (snd (completion C self ctx None)) = Some (DEFAULT_QUERY C)
   \<and> prefix (logged self @ [Log_query_start (DEFAULT_QUERY C)])
        (logged (snd (completion C self ctx None)))
   \<and> (\<exists>new. requests (snd (completion C self ctx None)) = requests self @ new
        \<and> (\<forall>req\<in>set new. \<exists>i fa. req \<noteq> [] \<and> last req = next_action_prompt C None i fa))"
proof -
  have 1: "query (snd (completion C self ctx None)) = Some (DEFAULT_QUERY C)"
    using completion_query[where C=C and self=self and ctx=ctx and q=None] by simp
  have 2: "prefix (logged self @ [Log_query_start (DEFAULT_QUERY C)])
        (logged (snd (completion C self ctx None)))"
    using completion_logged_prefix[where self=self and q=None and C=C and ctx=ctx] by simp
  from 1 2 completion_requests[where C=C and self=self and ctx=ctx and q=None] show ?thesis by (intro conjI)
qed

text \<open>
  In the instance the instruction built from \<open>None\<close> differs from the one built from
  the default query, and the two requests of the run end with the former.
\<close>

theorem none_query_reaches_prompts_witness:
  "query (snd (completion demo (init [] 1) [5] None)) = Some [100]
   \<and> map last (requests (snd (completion demo (init [] 1) [5] None))) =
       [next_action_prompt demo None 0 None, next_action_prompt demo None 0 (Some True)]
   \<and> next_action_prompt demo None 0 None \<noteq> next_action_prompt demo (Some [100]) 0 None
   \<and> hd (logged (snd (completion demo (init [] 1) [5] None))) = Log_query_start [100]"
proof -
  have "query (snd (completion demo (init [] 1) [5] None)) = Some (DEFAULT_QUERY demo)"
    using none_query_reaches_prompts[of demo "init [] 1" "[5]"] by (rule conjunct1)
  moreover have "DEFAULT_QUERY demo = [100]" by (simp add: demo_def)
  moreover have "map last (requests (snd (completion demo (init [] 1) [5] None))) =
       [next_action_prompt demo None 0 None, next_action_prompt demo None 0 (Some True)]
   \<and> next_action_prompt demo None 0 None \<noteq> next_action_prompt demo (Some [100]) 0 None
   \<and> hd (logged (snd (completion demo (init [] 1) [5] None))) = Log_query_start [100]"
    by (simp add: demo_def init_def completion_def setup_context_def py_range_1 llm_call_def
        process_response_def process_code_with_logging_def force_final_def Let_def)
  ultimately show ?thesis by simp
qed
end
